theory Spec2Isabelle
  imports Complex_Main "HOL-Library.Multiset"
begin

section \<open>Data model of the vocabulary store (db.py)\<close>

text \<open>
  The tables of \<^verbatim>\<open>Database.init_tables\<close>. A table is the list of its rows, a row
  the tuple of its columns in the order of the DDL. Integers are Python's and
  PostgreSQL's, modelled as \<open>int\<close>; the only bounds that the embedded code can
  reach are those of the \<^verbatim>\<open>INT\<close> counters and of \<^verbatim>\<open>VARCHAR(100)\<close>, and both are
  written out where a statement can hit them.
\<close>

datatype word_type = Common | User

text \<open>
  A Python \<^verbatim>\<open>str\<close> is a sequence of Unicode code points; \<open>str\<close> reads an ASCII
  literal as one.
\<close>
type_synonym py_str = "nat list"

definition str :: "string \<Rightarrow> py_str" where
  "str s = map of_char s"

text \<open>\<^verbatim>\<open>common_words (id, en_word, ru_word)\<close>\<close>
type_synonym common_row = "int \<times> py_str \<times> py_str"

text \<open>\<^verbatim>\<open>user_words (id, user_id, en_word, ru_word)\<close>\<close>
type_synonym user_row = "int \<times> int \<times> py_str \<times> py_str"

text \<open>
  \<^verbatim>\<open>user_word_progress\<close> carries \<^verbatim>\<open>UNIQUE (user_id, word_type, word_ref_id)\<close>, so it
  is a map from that key to the remaining columns
  \<^verbatim>\<open>(correct_count, incorrect_count, last_tested)\<close>; \<^verbatim>\<open>last_tested\<close> is nullable.
\<close>
type_synonym progress_key = "int \<times> word_type \<times> int"
type_synonym progress_row = "int \<times> int \<times> int option"

text \<open>
  \<^verbatim>\<open>self.conn\<close> is \<^verbatim>\<open>None\<close> when \<^verbatim>\<open>connect\<close> failed. A connection object is
  either usable or closed (the server went away, \<^verbatim>\<open>close\<close> was called): every
  method of a closed psycopg2 connection, \<^verbatim>\<open>cursor\<close>, \<^verbatim>\<open>commit\<close> and
  \<^verbatim>\<open>rollback\<close> included, raises \<^verbatim>\<open>psycopg2.InterfaceError\<close>.
\<close>
datatype connection = Healthy | Closed

record database =
  conn :: "connection option"
  common_words :: "common_row list"
  user_words :: "user_row list"
  user_words_id_seq :: int
  user_word_progress :: "progress_key \<Rightarrow> progress_row option"

text \<open>The exceptions that the embedded code can meet.\<close>
datatype py_error =
    InterfaceError
  | StringDataRightTruncation
  | NumericValueOutOfRange
  | ValueError
  | IndexError

text \<open>Whether an exception is a \<^verbatim>\<open>psycopg2.Error\<close> (the first handler of \<^verbatim>\<open>get_random_card\<close>).\<close>
fun is_psycopg2_error :: "py_error \<Rightarrow> bool" where
  "is_psycopg2_error InterfaceError = True"
| "is_psycopg2_error StringDataRightTruncation = True"
| "is_psycopg2_error NumericValueOutOfRange = True"
| "is_psycopg2_error ValueError = False"
| "is_psycopg2_error IndexError = False"

section \<open>Weights (get_random_card, step 2)\<close>

text \<open>
  The body of the loop over the fetched rows, for one row's progress columns
  (\<open>None\<close> is SQL \<^verbatim>\<open>NULL\<close>, the left join found no progress row):
  \<^verbatim>\<open>
  correct_count = correct_c if correct_c is not None else 0
  incorrect_count = incorrect_c if incorrect_c is not None else 0
  weight = 1
  if correct_count == 0 and incorrect_count == 0: weight = 10
  elif incorrect_count > 0: weight = 5 + incorrect_count * 2 - correct_count
  elif correct_count > 0: weight = max(1, 5 - correct_count)
  final_weight = max(1, weight)
  \<close>
\<close>

definition final_weight :: "int option \<Rightarrow> int option \<Rightarrow> int" where
  "final_weight correct_c incorrect_c =
     (let correct_count = (case correct_c of Some c \<Rightarrow> c | None \<Rightarrow> 0);
          incorrect_count = (case incorrect_c of Some i \<Rightarrow> i | None \<Rightarrow> 0);
          weight =
            (if correct_count = 0 \<and> incorrect_count = 0 then 10
             else if incorrect_count > 0 then 5 + incorrect_count * 2 - correct_count
             else if correct_count > 0 then max 1 (5 - correct_count)
             else 1)
      in max 1 weight)"

text \<open>The counts a progress column pair stands for: a missing row counts as zero.\<close>
definition count_of :: "int option \<Rightarrow> int" where
  "count_of c = (case c of Some n \<Rightarrow> n | None \<Rightarrow> 0)"


section \<open>The random module\<close>

text \<open>
  \<^verbatim>\<open>get_random_card\<close> draws from Python's \<^verbatim>\<open>random\<close> module. The draws are
  made explicit: a random source holds the value that \<^verbatim>\<open>random()\<close> returns
  inside \<^verbatim>\<open>choices\<close> (a number in \<open>[0, 1)\<close>) and the raw values behind
  every call of \<^verbatim>\<open>_randbelow\<close>, one field per library call of
  \<^verbatim>\<open>get_random_card\<close>. The library functions are modelled after CPython's
  \<^verbatim>\<open>Lib/random.py\<close> and \<^verbatim>\<open>Lib/bisect.py\<close>; floating point products are taken
  exactly, in \<open>real\<close>.
\<close>

record random_source =
  random_value :: real
  choice_draw :: nat
  sample_draws :: "nat \<Rightarrow> nat"
  shuffle_draws :: "nat \<Rightarrow> nat"

text \<open>\<^verbatim>\<open>_randbelow(n)\<close>: a number below \<open>n\<close>, here the raw draw reduced modulo \<open>n\<close>.\<close>
definition randbelow :: "nat \<Rightarrow> nat \<Rightarrow> nat" where
  "randbelow raw n = raw mod n"

text \<open>\<^verbatim>\<open>itertools.accumulate(weights)\<close>: the running sums.\<close>
fun accumulate_from :: "int \<Rightarrow> int list \<Rightarrow> int list" where
  "accumulate_from acc [] = []"
| "accumulate_from acc (w # ws) = (acc + w) # accumulate_from (acc + w) ws"

definition accumulate :: "int list \<Rightarrow> int list" where
  "accumulate ws = accumulate_from 0 ws"

text \<open>
  \<^verbatim>\<open>bisect.bisect_right(a, x, lo, hi)\<close>:
  \<^verbatim>\<open>
  while lo < hi:
      mid = (lo + hi) // 2
      if x < a[mid]: hi = mid
      else: lo = mid + 1
  return lo
  \<close>
\<close>
function bisect :: "int list \<Rightarrow> real \<Rightarrow> nat \<Rightarrow> nat \<Rightarrow> nat" where
  "bisect a x lo hi =
     (if lo < hi
      then (if x < real_of_int (a ! ((lo + hi) div 2))
            then bisect a x lo ((lo + hi) div 2)
            else bisect a x ((lo + hi) div 2 + 1) hi)
      else lo)"
  by pat_completeness auto
termination
  by (relation "measure (\<lambda>(a, x, lo, hi). hi - lo)") auto

declare bisect.simps [simp del]

text \<open>
  \<^verbatim>\<open>random.choices(population, weights, k=1)[0]\<close>, as an index into the population:
  \<^verbatim>\<open>
  n = len(population)
  cum_weights = list(accumulate(weights))
  if len(cum_weights) != n: raise ValueError
  total = cum_weights[-1] + 0.0
  if total <= 0.0: raise ValueError
  hi = n - 1
  return [population[bisect(cum_weights, random() * total, 0, hi)]]
  \<close>
  \<^verbatim>\<open>cum_weights[-1]\<close> raises \<^verbatim>\<open>IndexError\<close> on an empty list.
\<close>
definition choices_index :: "nat \<Rightarrow> int list \<Rightarrow> real \<Rightarrow> py_error + nat" where
  "choices_index n weights u =
     (let cum_weights = accumulate weights in
      if length cum_weights \<noteq> n then Inl ValueError
      else if cum_weights = [] then Inl IndexError
      else let total_weight = real_of_int (last cum_weights) in
        if total_weight \<le> 0 then Inl ValueError
        else Inr (bisect cum_weights (u * total_weight) 0 (n - 1)))"

definition choices :: "'a list \<Rightarrow> int list \<Rightarrow> real \<Rightarrow> py_error + 'a" where
  "choices population weights u =
     (case choices_index (length population) weights u of
        Inl e \<Rightarrow> Inl e
      | Inr i \<Rightarrow> Inr (population ! i))"

text \<open>\<^verbatim>\<open>random.choice(seq)\<close>: \<^verbatim>\<open>IndexError\<close> on an empty sequence.\<close>
definition choice :: "'a list \<Rightarrow> nat \<Rightarrow> py_error + 'a" where
  "choice seq raw =
     (if seq = [] then Inl IndexError
      else Inr (seq ! randbelow raw (length seq)))"

text \<open>
  \<^verbatim>\<open>random.sample(population, k)\<close>, the selection from a pool:
  \<^verbatim>\<open>
  if not 0 <= k <= n: raise ValueError
  pool = list(population)
  for i in range(k):
      j = randbelow(n - i)
      result[i] = pool[j]
      pool[j] = pool[n - i - 1]
  \<close>
  (For populations of more than 21 elements CPython tracks the chosen positions
  in a set instead; both variants return the elements at \<open>k\<close> pairwise distinct
  positions, and the pool variant stands for both.) The last argument counts
  the iterations that remain.
\<close>
fun sample_loop :: "(nat \<Rightarrow> nat) \<Rightarrow> nat \<Rightarrow> nat \<Rightarrow> 'a list \<Rightarrow> nat \<Rightarrow> 'a list" where
  "sample_loop draws n i pool 0 = []"
| "sample_loop draws n i pool (Suc remaining) =
     (let j = randbelow (draws i) (n - i)
      in pool ! j # sample_loop draws n (Suc i) (pool[j := pool ! (n - i - 1)]) remaining)"

definition sample :: "'a list \<Rightarrow> nat \<Rightarrow> (nat \<Rightarrow> nat) \<Rightarrow> py_error + 'a list" where
  "sample population k draws =
     (if k > length population then Inl ValueError
      else Inr (sample_loop draws (length population) 0 population k))"

text \<open>
  \<^verbatim>\<open>random.shuffle(x)\<close>:
  \<^verbatim>\<open>
  for i in reversed(range(1, len(x))):
      j = randbelow(i + 1)
      x[i], x[j] = x[j], x[i]
  \<close>
\<close>
fun shuffle_loop :: "(nat \<Rightarrow> nat) \<Rightarrow> nat \<Rightarrow> 'a list \<Rightarrow> 'a list" where
  "shuffle_loop draws 0 x = x"
| "shuffle_loop draws (Suc i') x =
     (let i = Suc i'; j = randbelow (draws i) (i + 1)
      in shuffle_loop draws i' (x[i := x ! j, j := x ! i]))"

definition shuffle :: "'a list \<Rightarrow> (nat \<Rightarrow> nat) \<Rightarrow> 'a list" where
  "shuffle x draws = shuffle_loop draws (length x - 1) x"

section \<open>Card selection (Database.get_random_card)\<close>

text \<open>A row of the query of step 1:
  \<^verbatim>\<open>en_word, ru_word, word_type, word_ref_id, correct_count, incorrect_count\<close>.\<close>
type_synonym fetched_row = "py_str \<times> py_str \<times> word_type \<times> int \<times> int option \<times> int option"

record word_info =
  en_word :: py_str
  ru_word :: py_str
  word_type :: word_type
  word_ref_id :: int

text \<open>The dictionary that \<^verbatim>\<open>get_random_card\<close> returns: the selected word and the options.\<close>
record card = word_info +
  options :: "py_str list"

text \<open>
  The query of step 1. The inner \<^verbatim>\<open>UNION\<close> removes duplicate rows (\<open>remdups\<close>);
  the left join attaches the user's progress row, of which the key admits at
  most one, or \<^verbatim>\<open>NULL\<close>s. SQL leaves the order of the result open; the model
  lists the common words first.
\<close>
definition words_union :: "database \<Rightarrow> int \<Rightarrow> (py_str \<times> py_str \<times> word_type \<times> int) list" where
  "words_union db user_id =
     remdups
       (map (\<lambda>(i, en, ru). (en, ru, Common, i)) (common_words db) @
        map (\<lambda>(i, u, en, ru). (en, ru, User, i))
          (filter (\<lambda>(i, u, en, ru). u = user_id) (user_words db)))"

definition words_data_with_progress :: "database \<Rightarrow> int \<Rightarrow> fetched_row list" where
  "words_data_with_progress db user_id =
     map (\<lambda>(en, ru, wt, rid).
            case user_word_progress db (user_id, wt, rid) of
              None \<Rightarrow> (en, ru, wt, rid, None, None)
            | Some (c, i, t) \<Rightarrow> (en, ru, wt, rid, Some c, Some i))
         (words_union db user_id)"

text \<open>Executing a statement on the connection: a closed connection raises.\<close>
definition execute :: "connection \<Rightarrow> 'a \<Rightarrow> py_error + 'a" where
  "execute c result = (case c of Healthy \<Rightarrow> Inr result | Closed \<Rightarrow> Inl InterfaceError)"

text \<open>Step 2: the loop that fills \<^verbatim>\<open>population\<close> and \<^verbatim>\<open>weights\<close>.\<close>
fun weights_loop ::
  "fetched_row list \<Rightarrow> word_info list \<Rightarrow> int list \<Rightarrow> word_info list \<times> int list" where
  "weights_loop [] population weights = (population, weights)"
| "weights_loop ((en, ru, wt, rid, correct_c, incorrect_c) # rows) population weights =
     weights_loop rows
       (population @ [\<lparr>en_word = en, ru_word = ru, word_type = wt, word_ref_id = rid\<rparr>])
       (weights @ [final_weight correct_c incorrect_c])"

text \<open>
  Step 3: the weighted draw and its two fallbacks to \<^verbatim>\<open>random.choice\<close>, on a
  length mismatch and on a \<^verbatim>\<open>ValueError\<close> of \<^verbatim>\<open>random.choices\<close>.
\<close>
definition select_word :: "word_info list \<Rightarrow> int list \<Rightarrow> random_source \<Rightarrow> py_error + word_info" where
  "select_word population weights rnd =
     (if length population \<noteq> length weights then choice population (choice_draw rnd)
      else case choices population weights (random_value rnd) of
             Inl ValueError \<Rightarrow> choice population (choice_draw rnd)
           | Inl e \<Rightarrow> Inl e
           | Inr selected \<Rightarrow> Inr selected)"

text \<open>Steps 4 and 5: the options and the returned dictionary.\<close>
definition make_card :: "fetched_row list \<Rightarrow> word_info \<Rightarrow> random_source \<Rightarrow> py_error + card" where
  "make_card rows selected_word_info rnd =
     (let target_en_word = en_word selected_word_info;
          all_available_en_words = map fst rows;
          other_en_words = filter (\<lambda>w. w \<noteq> target_en_word) all_available_en_words;
          num_options = min 3 (length other_en_words)
      in case sample other_en_words num_options (sample_draws rnd) of
           Inl e \<Rightarrow> Inl e
         | Inr sampled \<Rightarrow>
             Inr \<lparr>en_word = en_word selected_word_info,
                  ru_word = ru_word selected_word_info,
                  word_type = word_type selected_word_info,
                  word_ref_id = word_ref_id selected_word_info,
                  options = shuffle (sampled @ [target_en_word]) (shuffle_draws rnd)\<rparr>)"

text \<open>Steps 3 to 5 for a given population and weight list.\<close>
definition card_from_population ::
  "fetched_row list \<Rightarrow> word_info list \<Rightarrow> int list \<Rightarrow> random_source \<Rightarrow> py_error + card option" where
  "card_from_population rows population weights rnd =
     (if population = [] then Inr None
      else case select_word population weights rnd of
             Inl e \<Rightarrow> Inl e
           | Inr selected_word_info \<Rightarrow>
               (case make_card rows selected_word_info rnd of
                  Inl e \<Rightarrow> Inl e
                | Inr c \<Rightarrow> Inr (Some c)))"

text \<open>The body of the \<^verbatim>\<open>try\<close> block; \<open>Inl\<close> is an exception raised inside it.\<close>
definition get_random_card_try :: "database \<Rightarrow> connection \<Rightarrow> int \<Rightarrow> random_source \<Rightarrow> py_error + card option" where
  "get_random_card_try db c user_id rnd =
     (case execute c (words_data_with_progress db user_id) of
        Inl e \<Rightarrow> Inl e
      | Inr rows \<Rightarrow>
          if rows = [] then Inr None
          else (case weights_loop rows [] [] of
                  (population, weights) \<Rightarrow> card_from_population rows population weights rnd))"

text \<open>
  The whole method. \<open>Inl\<close> would be an exception that reaches the caller; both
  handlers (\<^verbatim>\<open>except psycopg2.Error\<close>, whose rollback is itself guarded, and
  \<^verbatim>\<open>except Exception\<close>) log and return \<^verbatim>\<open>None\<close>.
\<close>
definition get_random_card :: "database \<Rightarrow> int \<Rightarrow> random_source \<Rightarrow> py_error + card option" where
  "get_random_card db user_id rnd =
     (case conn db of
        None \<Rightarrow> Inr None
      | Some c \<Rightarrow>
          (case get_random_card_try db c user_id rnd of
             Inl e \<Rightarrow> (if is_psycopg2_error e then Inr None else Inr None)
           | Inr result \<Rightarrow> Inr result))"

section \<open>Recording answers (Database.record_answer)\<close>

text \<open>The largest value of a PostgreSQL \<^verbatim>\<open>INT\<close> column; an increment beyond it raises.\<close>
definition int4_max :: int where
  "int4_max = 2147483647"

text \<open>\<^verbatim>\<open>self.conn.rollback()\<close> and \<^verbatim>\<open>self.conn.commit()\<close>: a closed connection raises.\<close>
definition rollback :: "connection \<Rightarrow> py_error + unit" where
  "rollback c = (case c of Healthy \<Rightarrow> Inr () | Closed \<Rightarrow> Inl InterfaceError)"

text \<open>
  The statement of \<^verbatim>\<open>record_answer\<close> on the progress table:
  \<^verbatim>\<open>
  INSERT ... VALUES (%s, %s, %s, 1, 0, %s)
  ON CONFLICT (user_id, word_type, word_ref_id) DO UPDATE SET
      correct_count = user_word_progress.correct_count + 1,
      last_tested = EXCLUDED.last_tested
  \<close>
  and the same with \<^verbatim>\<open>0, 1\<close> and \<^verbatim>\<open>incorrect_count\<close> for a wrong answer.
\<close>
definition upsert_progress ::
  "(progress_key \<Rightarrow> progress_row option) \<Rightarrow> progress_key \<Rightarrow> bool \<Rightarrow> int
     \<Rightarrow> py_error + (progress_key \<Rightarrow> progress_row option)" where
  "upsert_progress table k is_correct now_utc =
     (case table k of
        None \<Rightarrow>
          Inr (table(k \<mapsto> (if is_correct then (1, 0, Some now_utc) else (0, 1, Some now_utc))))
      | Some (correct_count, incorrect_count, last_tested) \<Rightarrow>
          if is_correct
          then (if correct_count + 1 > int4_max then Inl NumericValueOutOfRange
                else Inr (table(k \<mapsto> (correct_count + 1, incorrect_count, Some now_utc))))
          else (if incorrect_count + 1 > int4_max then Inl NumericValueOutOfRange
                else Inr (table(k \<mapsto> (correct_count, incorrect_count + 1, Some now_utc)))))"

text \<open>
  The method: the flag it returns and the database afterwards; \<open>Inl\<close> is an
  exception that reaches the caller. \<^verbatim>\<open>now_utc\<close> is the value of
  \<^verbatim>\<open>datetime.now(timezone.utc)\<close>. The handler's \<^verbatim>\<open>self.conn.rollback()\<close> is not
  guarded, so what it raises propagates.
\<close>
definition record_answer ::
  "database \<Rightarrow> int \<Rightarrow> word_type \<Rightarrow> int \<Rightarrow> bool \<Rightarrow> int \<Rightarrow> py_error + (bool \<times> database)" where
  "record_answer db user_id wt rid is_correct now_utc =
     (case conn db of
        None \<Rightarrow> Inr (False, db)
      | Some c \<Rightarrow>
          (case (case execute c () of
                   Inl e \<Rightarrow> Inl e
                 | Inr _ \<Rightarrow> upsert_progress (user_word_progress db) (user_id, wt, rid) is_correct now_utc) of
             Inr table \<Rightarrow> Inr (True, db\<lparr>user_word_progress := table\<rparr>)
           | Inl e \<Rightarrow>
               (case rollback c of
                  Inl e' \<Rightarrow> Inl e'
                | Inr _ \<Rightarrow> Inr (False, db))))"

text \<open>The counters of a key as \<^verbatim>\<open>get_random_card\<close> reads them: zero when there is no row.\<close>
definition progress_counts :: "database \<Rightarrow> progress_key \<Rightarrow> int \<times> int" where
  "progress_counts db k =
     (case user_word_progress db k of None \<Rightarrow> (0, 0) | Some (c, i, t) \<Rightarrow> (c, i))"

section \<open>Adding a word (Database.add_user_word)\<close>

text \<open>
  \<^verbatim>\<open>str.lower()\<close>, on the letters of the two alphabets the bot teaches: Basic
  Latin and the Cyrillic block. Code points of other scripts are left as they
  are.
\<close>
definition char_lower :: "nat \<Rightarrow> nat" where
  "char_lower c =
     (if 65 \<le> c \<and> c \<le> 90 then c + 32
      else if 1040 \<le> c \<and> c \<le> 1071 then c + 32
      else if 1024 \<le> c \<and> c \<le> 1039 then c + 80
      else c)"

definition lower :: "py_str \<Rightarrow> py_str" where
  "lower s = map char_lower s"

text \<open>
  \<^verbatim>\<open>
  INSERT INTO user_words (user_id, en_word, ru_word) VALUES (%s, %s, %s)
  ON CONFLICT (user_id, en_word) DO NOTHING
  RETURNING id
  \<close>
  The result is the returned row (\<open>None\<close> when nothing was inserted) and the
  table state. The \<^verbatim>\<open>SERIAL\<close> column takes the next value of its sequence; both
  text columns are \<^verbatim>\<open>VARCHAR(100)\<close>, and a longer value raises.
\<close>
definition insert_user_word ::
  "database \<Rightarrow> int \<Rightarrow> py_str \<Rightarrow> py_str \<Rightarrow> py_error + (int option \<times> database)" where
  "insert_user_word db user_id en ru =
     (if length en > 100 \<or> length ru > 100 then Inl StringDataRightTruncation
      else
        let new_id = user_words_id_seq db + 1;
            db' = db\<lparr>user_words_id_seq := new_id\<rparr>
        in if list_ex (\<lambda>(i, u, en', ru'). u = user_id \<and> en' = en) (user_words db)
           then Inr (None, db')
           else Inr (Some new_id, db'\<lparr>user_words := user_words db @ [(new_id, user_id, en, ru)]\<rparr>))"

definition add_user_word ::
  "database \<Rightarrow> int \<Rightarrow> py_str \<Rightarrow> py_str \<Rightarrow> py_error + (bool \<times> database)" where
  "add_user_word db user_id en ru =
     (case conn db of
        None \<Rightarrow> Inr (False, db)
      | Some c \<Rightarrow>
          (case (case execute c () of
                   Inl e \<Rightarrow> Inl e
                 | Inr _ \<Rightarrow> insert_user_word db user_id (lower en) (lower ru)) of
             Inr (result, db') \<Rightarrow> Inr (result \<noteq> None, db')
           | Inl e \<Rightarrow>
               (case rollback c of
                  Inl e' \<Rightarrow> Inl e'
                | Inr _ \<Rightarrow> Inr (False, db))))"

section \<open>Grading (bot.py, handle_non_command_text)\<close>

text \<open>\<^verbatim>\<open>str.isspace\<close> on one code point: the code points that Unicode marks as white space.\<close>
definition is_space :: "nat \<Rightarrow> bool" where
  "is_space c =
     ((9 \<le> c \<and> c \<le> 13) \<or> (28 \<le> c \<and> c \<le> 32) \<or> c = 133 \<or> c = 160 \<or> c = 5760
      \<or> (8192 \<le> c \<and> c \<le> 8202) \<or> c = 8232 \<or> c = 8233 \<or> c = 8239 \<or> c = 8287
      \<or> c = 12288)"

text \<open>\<^verbatim>\<open>str.strip()\<close>: white space is dropped from both ends.\<close>
definition strip :: "py_str \<Rightarrow> py_str" where
  "strip s = rev (dropWhile is_space (rev (dropWhile is_space s)))"

text \<open>
  \<^verbatim>\<open>
  user_text = message.text.strip()
  ...
  is_correct = user_text.lower() == correct_answer.lower()
  \<close>
  \<^verbatim>\<open>correct_answer\<close> is the \<^verbatim>\<open>en_word\<close> of the card that was shown.
\<close>
definition is_correct :: "py_str \<Rightarrow> py_str \<Rightarrow> bool" where
  "is_correct message_text correct_answer =
     (let user_text = strip message_text
      in lower user_text = lower correct_answer)"



section \<open>Constraints of the schema\<close>

text \<open>
  What the DDL of \<^verbatim>\<open>init_tables\<close> enforces on every state of the tables:
  the primary keys, \<^verbatim>\<open>UNIQUE (en_word)\<close> on the common words,
  \<^verbatim>\<open>uq_user_word\<close>, and the sequence behind \<^verbatim>\<open>user_words.id\<close>.
\<close>
definition schema_ok :: "database \<Rightarrow> bool" where
  "schema_ok db =
     (distinct (map fst (common_words db))
      \<and> distinct (map (\<lambda>(i, en, ru). en) (common_words db))
      \<and> distinct (map fst (user_words db))
      \<and> distinct (map (\<lambda>(i, u, en, ru). (u, en)) (user_words db))
      \<and> list_all (\<lambda>(i, u, en, ru). i \<le> user_words_id_seq db) (user_words db))"

text \<open>The identity of a fetched row and of a selected word: \<^verbatim>\<open>(word_type, word_ref_id)\<close>.\<close>
definition row_identity :: "fetched_row \<Rightarrow> word_type \<times> int" where
  "row_identity row = (case row of (en, ru, wt, rid, c, i) \<Rightarrow> (wt, rid))"

definition card_identity :: "card \<Rightarrow> word_type \<times> int" where
  "card_identity c = (word_type c, word_ref_id c)"

section \<open>Example states\<close>

text \<open>
  A store with three common words and one word of user 7, who has answered
  \<^verbatim>\<open>cat\<close> correctly three times; the same store without a connection and with a
  closed one; a store without words; and a store in which user 7 has added
  \<^verbatim>\<open>apple\<close>, which is a common word as well.
\<close>
definition example_db :: database where
  "example_db =
     \<lparr>conn = Some Healthy,
      common_words = [(1, str ''apple'', str ''yabloko''), (2, str ''book'', str ''kniga''),
                      (3, str ''cat'', str ''kot'')],
      user_words = [(1, 7, str ''dog'', str ''sobaka'')],
      user_words_id_seq = 1,
      user_word_progress = [(7, Common, 3) \<mapsto> (3, 0, Some 50)]\<rparr>"

definition no_connection_db :: database where
  "no_connection_db = example_db\<lparr>conn := None\<rparr>"

definition closed_connection_db :: database where
  "closed_connection_db = example_db\<lparr>conn := Some Closed\<rparr>"

definition empty_db :: database where
  "empty_db =
     \<lparr>conn = Some Healthy, common_words = [], user_words = [], user_words_id_seq = 0,
      user_word_progress = Map.empty\<rparr>"

definition shared_word_db :: database where
  "shared_word_db =
     \<lparr>conn = Some Healthy,
      common_words = [(1, str ''apple'', str ''yabloko''), (2, str ''book'', str ''kniga'')],
      user_words = [(1, 7, str ''apple'', str ''yablochko'')],
      user_words_id_seq = 1,
      user_word_progress = Map.empty\<rparr>"

text \<open>A random source: \<^verbatim>\<open>random()\<close> returns one half; the raw draws vary with their position.\<close>
definition example_rnd :: random_source where
  "example_rnd =
     \<lparr>random_value = 1 / 2, choice_draw = 1, sample_draws = (\<lambda>i. i + 1),
      shuffle_draws = (\<lambda>i. 2 * i)\<rparr>"




section \<open>Properties of the library functions\<close>

lemma weights_loop_eq:
  "weights_loop rows population weights =
     (population @ map (\<lambda>(en, ru, wt, rid, c, i). \<lparr>en_word = en, ru_word = ru, word_type = wt, word_ref_id = rid\<rparr>) rows,
      weights @ map (\<lambda>(en, ru, wt, rid, c, i). final_weight c i) rows)"
  by (induction rows population weights rule: weights_loop.induct) auto

lemma randbelow_less: "0 < n \<Longrightarrow> randbelow raw n < n"
  by (simp add: randbelow_def)

lemma pool_step_mset:
  assumes "j < m" and "m \<le> length pool"
  shows "add_mset (pool ! j) (mset (take (m - 1) (pool[j := pool ! (m - 1)]))) = mset (take m pool)"
proof -
  obtain m' where m: "m = Suc m'" using assms(1) by (cases m) auto
  have len: "m' < length pool" using assms(2) m by simp
  have split: "take m pool = take m' pool @ [pool ! m']"
    using len m by (simp add: take_Suc_conv_app_nth)
  show ?thesis
  proof (cases "j = m'")
    case True
    then show ?thesis using split m by simp
  next
    case False
    then have jl: "j < m'" using assms(1) m by simp
    have "take m' (pool[j := pool ! m']) = (take m' pool)[j := pool ! m']"
      by (simp add: take_update_swap)
    moreover have "mset ((take m' pool)[j := pool ! m']) = add_mset (pool ! m') (mset (take m' pool) - {#pool ! j#})"
      using jl len by (simp add: mset_update)
    moreover have "pool ! j \<in># mset (take m' pool)"
      using jl len by (metis in_set_conv_nth length_take min.absorb2 less_imp_le nth_take set_mset_mset)
    ultimately show ?thesis using split m by simp
  qed
qed

lemma sample_loop_props:
  "i + k \<le> n \<Longrightarrow> n = length pool \<Longrightarrow>
     length (sample_loop draws n i pool k) = k \<and>
     mset (sample_loop draws n i pool k) \<subseteq># mset (take (n - i) pool)"
proof (induction k arbitrary: i pool)
  case 0
  then show ?case by simp
next
  case (Suc k)
  let ?j = "randbelow (draws i) (n - i)"
  let ?pool = "pool[?j := pool ! (n - i - 1)]"
  have jl: "?j < n - i" using Suc.prems by (intro randbelow_less) simp
  have IH: "length (sample_loop draws n (Suc i) ?pool k) = k \<and>
     mset (sample_loop draws n (Suc i) ?pool k) \<subseteq># mset (take (n - Suc i) ?pool)"
    using Suc.prems by (intro Suc.IH) auto
  have "add_mset (pool ! ?j) (mset (take (n - i - 1) ?pool)) = mset (take (n - i) pool)"
    using jl Suc.prems by (intro pool_step_mset) auto
  then show ?case using IH by (simp add: Let_def) (metis mset_subset_eq_add_mset_cancel)
qed

lemma sample_ok:
  assumes "k \<le> length population"
  shows "\<exists>ys. sample population k draws = Inr ys \<and> length ys = k \<and> mset ys \<subseteq># mset population"
  using assms sample_loop_props [of 0 k "length population" population draws]
  by (simp add: sample_def)

lemma shuffle_loop_mset: "i < length x \<or> i = 0 \<Longrightarrow> mset (shuffle_loop draws i x) = mset x"
proof (induction i arbitrary: x)
  case 0
  then show ?case by simp
next
  case (Suc i)
  let ?j = "randbelow (draws (Suc i)) (Suc i + 1)"
  have jl: "?j < length x" using Suc.prems randbelow_less [of "Suc i + 1" "draws (Suc i)"] by simp
  have "mset (x[Suc i := x ! ?j, ?j := x ! Suc i]) = mset x"
    using jl Suc.prems by (simp add: mset_swap)
  then show ?case using Suc.prems Suc.IH [of "x[Suc i := x ! ?j, ?j := x ! Suc i]"] by (simp add: Let_def)
qed

lemma mset_shuffle: "mset (shuffle x draws) = mset x"
  unfolding shuffle_def by (rule shuffle_loop_mset) (cases x; simp)

lemma bisect_bounds: "lo \<le> hi \<Longrightarrow> lo \<le> bisect a x lo hi \<and> bisect a x lo hi \<le> hi"
proof (induction a x lo hi rule: bisect.induct)
  case (1 a x lo hi)
  show ?case
  proof (cases "lo < hi")
    case False
    then have "bisect a x lo hi = lo" by (subst bisect.simps) simp
    then show ?thesis using "1.prems" by simp
  next
    case lt: True
    define mid where "mid = (lo + hi) div 2"
    have mid: "lo \<le> mid" "mid < hi" using lt by (simp_all add: mid_def)
    show ?thesis
    proof (cases "x < real_of_int (a ! mid)")
      case True
      then have eq: "bisect a x lo hi = bisect a x lo mid"
        using lt by (subst bisect.simps) (simp add: mid_def)
      have "lo \<le> bisect a x lo mid \<and> bisect a x lo mid \<le> mid"
        using "1.IH"(1) [OF lt] True mid by (simp add: mid_def)
      then show ?thesis using eq mid by simp
    next
      case False
      then have eq: "bisect a x lo hi = bisect a x (mid + 1) hi"
        using lt by (subst bisect.simps) (simp add: mid_def)
      have "mid + 1 \<le> bisect a x (mid + 1) hi \<and> bisect a x (mid + 1) hi \<le> hi"
        using "1.IH"(2) [OF lt] False mid by (simp add: mid_def)
      then show ?thesis using eq mid by simp
    qed
  qed
qed



lemma choice_member: "seq \<noteq> [] \<Longrightarrow> \<exists>y. choice seq raw = Inr y \<and> y \<in> set seq"
  by (simp add: choice_def randbelow_less)

lemma choices_index_less: "choices_index n weights u = Inr i \<Longrightarrow> i < n"
  using bisect_bounds [of 0 "n - 1" "accumulate weights"]
  apply (simp add: choices_index_def Let_def split: if_splits)
  by (metis One_nat_def Suc_pred le_imp_less_Suc length_greater_0_conv)

lemma choices_index_error: "choices_index n weights u = Inl e \<Longrightarrow> n \<noteq> 0 \<Longrightarrow> e = ValueError"
  by (auto simp: choices_index_def Let_def split: if_splits)

lemma choices_member: "choices population weights u = Inr y \<Longrightarrow> y \<in> set population"
  by (auto simp: choices_def split: sum.splits dest: choices_index_less)

lemma choices_error: "choices population weights u = Inl e \<Longrightarrow> population \<noteq> [] \<Longrightarrow> e = ValueError"
  by (auto simp: choices_def split: sum.splits dest: choices_index_error)

lemma select_word_member:
  assumes "population \<noteq> []"
  shows "\<exists>w. select_word population weights rnd = Inr w \<and> w \<in> set population"
proof (cases "length population \<noteq> length weights")
  case True
  then show ?thesis using choice_member [OF assms] by (simp add: select_word_def)
next
  case False
  show ?thesis
  proof (cases "choices population weights (random_value rnd)")
    case (Inl e)
    then have "e = ValueError" using assms by (rule choices_error)
    then show ?thesis using False Inl choice_member [OF assms] by (simp add: select_word_def)
  next
    case (Inr w)
    then show ?thesis using False choices_member [OF Inr] by (simp add: select_word_def)
  qed
qed

subsection \<open>The weighted draw\<close>












section \<open>Properties of the selection steps\<close>

lemma make_card_ok:
  "\<exists>c. make_card rows selected rnd = Inr c
     \<and> en_word c = en_word selected \<and> ru_word c = ru_word selected
     \<and> word_type c = word_type selected \<and> word_ref_id c = word_ref_id selected
     \<and> (\<exists>sampled. sample (filter (\<lambda>w. w \<noteq> en_word selected) (map fst rows))
            (min 3 (length (filter (\<lambda>w. w \<noteq> en_word selected) (map fst rows)))) (sample_draws rnd) = Inr sampled
          \<and> mset (options c) = add_mset (en_word selected) (mset sampled))"
proof -
  let ?other = "filter (\<lambda>w. w \<noteq> en_word selected) (map fst rows)"
  obtain ys where ys: "sample ?other (min 3 (length ?other)) (sample_draws rnd) = Inr ys"
    using sample_ok [of "min 3 (length ?other)" ?other "sample_draws rnd"] by auto
  show ?thesis using ys by (simp add: make_card_def Let_def mset_shuffle)
qed

lemma card_from_population_ok:
  assumes "population \<noteq> []"
  shows "\<exists>w c. select_word population weights rnd = Inr w \<and> w \<in> set population
     \<and> card_from_population rows population weights rnd = Inr (Some c)
     \<and> make_card rows w rnd = Inr c"
proof -
  obtain w where w: "select_word population weights rnd = Inr w" "w \<in> set population"
    using select_word_member [OF assms] by blast
  obtain c where c: "make_card rows w rnd = Inr c" using make_card_ok by blast
  show ?thesis using w c assms by (simp add: card_from_population_def)
qed

lemma filter_same_key_length:
  "distinct (map f xs) \<Longrightarrow> x \<in> set xs \<Longrightarrow> length (filter (\<lambda>y. f y = f x) xs) = 1"
proof (induction xs)
  case Nil
  then show ?case by simp
next
  case (Cons a xs)
  show ?case
  proof (cases "f a = f x")
    case True
    then have "f x \<notin> f ` set xs" using Cons.prems(1) by simp
    then have "filter (\<lambda>y. f y = f x) xs = []"
      unfolding filter_empty_conv by (metis imageI)
    then show ?thesis using True by simp
  next
    case False
    then have "x \<in> set xs" using Cons.prems(2) by auto
    then show ?thesis using False Cons by simp
  qed
qed

lemma words_union_identities:
  assumes "schema_ok db"
  shows "distinct (map (\<lambda>(en, ru, wt, rid). (wt, rid)) (words_union db user_id))"
proof -
  let ?A = "map (\<lambda>(i, en, ru). (en, ru, Common, i)) (common_words db)"
  let ?B = "map (\<lambda>(i, u, en, ru). (en, ru, User, i))
          (filter (\<lambda>(i, u, en, ru). u = user_id) (user_words db))"
  let ?key = "\<lambda>(en, ru, wt, rid). (wt, rid)"
  have A: "map ?key ?A = map (\<lambda>i. (Common, i)) (map fst (common_words db))"
    by (simp add: case_prod_unfold comp_def)
  have B: "map ?key ?B = map (\<lambda>i. (User, i)) (map fst (filter (\<lambda>(i, u, en, ru). u = user_id) (user_words db)))"
    by (simp add: case_prod_unfold comp_def)
  have dA: "distinct (map ?key ?A)"
    unfolding A using assms by (simp add: schema_ok_def distinct_map inj_on_def)
  have "distinct (map fst (filter (\<lambda>(i, u, en, ru). u = user_id) (user_words db)))"
    using assms by (simp add: schema_ok_def distinct_map_filter)
  then have dB: "distinct (map ?key ?B)"
    unfolding B by (simp add: distinct_map inj_on_def)
  have disj: "set (map ?key ?A) \<inter> set (map ?key ?B) = {}"
    unfolding A B by auto
  have dAB: "distinct (map ?key (?A @ ?B))"
    using dA dB disj by (simp del: map_map)
  from this have "distinct (?A @ ?B)" unfolding distinct_map by (rule conjunct1)
  then have "remdups (?A @ ?B) = ?A @ ?B" by (rule distinct_remdups_id)
  then have "words_union db user_id = ?A @ ?B" by (simp only: words_union_def)
  then show ?thesis using dAB by (simp only:)
qed

lemma row_identities:
  "map row_identity (words_data_with_progress db user_id)
     = map (\<lambda>(en, ru, wt, rid). (wt, rid)) (words_union db user_id)"
  unfolding words_data_with_progress_def map_map
  by (rule map_cong) (auto simp: row_identity_def split: option.splits)

lemma candidate_identities_distinct:
  "schema_ok db \<Longrightarrow> distinct (map row_identity (words_data_with_progress db user_id))"
  unfolding row_identities by (rule words_union_identities)

lemma population_of_rows:
  "w \<in> set (fst (weights_loop rows [] [])) \<Longrightarrow>
     \<exists>row \<in> set rows. row_identity row = (word_type w, word_ref_id w) \<and> fst row = en_word w"
proof -
  assume "w \<in> set (fst (weights_loop rows [] []))"
  then obtain row where row: "row \<in> set rows"
      "w = (case row of (en, ru, wt, rid, c, i) \<Rightarrow>
              \<lparr>en_word = en, ru_word = ru, word_type = wt, word_ref_id = rid\<rparr>)"
    by (auto simp: weights_loop_eq)
  obtain en ru wt rid c i where "row = (en, ru, wt, rid, c, i)" by (cases row)
  then have "row_identity row = (word_type w, word_ref_id w) \<and> fst row = en_word w"
    using row(2) by (simp add: row_identity_def)
  then show ?thesis using row(1) by blast
qed

lemma get_random_card_ok:
  assumes "conn db = Some Healthy" and "words_data_with_progress db user_id \<noteq> []"
  shows "\<exists>w c. get_random_card db user_id rnd = Inr (Some c)
     \<and> w \<in> set (fst (weights_loop (words_data_with_progress db user_id) [] []))
     \<and> make_card (words_data_with_progress db user_id) w rnd = Inr c"
proof -
  let ?rows = "words_data_with_progress db user_id"
  obtain population weights where pw: "weights_loop ?rows [] [] = (population, weights)"
    by (cases "weights_loop ?rows [] []")
  then have "population \<noteq> []" using assms(2) by (auto simp: weights_loop_eq)
  then obtain w c where wc: "w \<in> set population"
      "card_from_population ?rows population weights rnd = Inr (Some c)" "make_card ?rows w rnd = Inr c"
    using card_from_population_ok by blast
  show ?thesis using assms pw wc
    by (auto simp: get_random_card_def get_random_card_try_def execute_def)
qed

text \<open>
  The options of a card when no two candidates share their English text: as many
  as there are candidates, four at most, pairwise distinct, the answer among them.
\<close>

lemma distinct_of_submultiset:
  assumes "mset ys \<subseteq># mset xs" and "distinct xs"
  shows "distinct ys \<and> set ys \<subseteq> set xs"
proof -
  obtain C where C: "mset xs = mset ys + C"
    using assms(1) by (auto simp: mset_subset_eq_exists_conv)
  obtain zs where zs: "mset zs = C" using ex_mset by blast
  have "mset xs = mset (ys @ zs)" using C zs by simp
  then have "distinct (ys @ zs)" using assms(2) by (metis mset_eq_imp_distinct_iff)
  then have "distinct ys" by simp
  moreover have "set ys \<subseteq> set xs" using set_mset_mono [OF assms(1)] by simp
  ultimately show ?thesis by simp
qed

lemma length_filter_other:
  assumes "distinct xs" and "x \<in> set xs"
  shows "length (filter (\<lambda>y. y \<noteq> x) xs) = length xs - 1"
proof -
  have "length (filter (\<lambda>y. y = x) xs) = 1"
    using filter_same_key_length [of "\<lambda>y. y" xs x] assms by simp
  moreover have "length (filter (\<lambda>y. y = x) xs) + length (filter (\<lambda>y. \<not> y = x) xs) = length xs"
    by (rule sum_length_filter_compl)
  ultimately show ?thesis by simp
qed

lemma options_of_distinct_words:
  assumes "conn db = Some Healthy"
    and "words_data_with_progress db user_id \<noteq> []"
    and "distinct (map fst (words_data_with_progress db user_id))"
  shows "\<exists>c. get_random_card db user_id rnd = Inr (Some c)
     \<and> length (options c) = min 4 (length (words_data_with_progress db user_id))
     \<and> distinct (options c) \<and> en_word c \<in> set (options c)"
proof -
  let ?rows = "words_data_with_progress db user_id"
  obtain w c where wc: "get_random_card db user_id rnd = Inr (Some c)"
      "w \<in> set (fst (weights_loop ?rows [] []))" "make_card ?rows w rnd = Inr c"
    using get_random_card_ok [OF assms(1,2)] by blast
  obtain row where row: "row \<in> set ?rows" "fst row = en_word w"
    using population_of_rows [OF wc(2)] by blast
  let ?other = "filter (\<lambda>x. x \<noteq> en_word w) (map fst ?rows)"
  obtain sampled where s: "en_word c = en_word w"
      "sample ?other (min 3 (length ?other)) (sample_draws rnd) = Inr sampled"
      "mset (options c) = add_mset (en_word w) (mset sampled)"
    using make_card_ok [of ?rows w rnd] wc(3) by auto
  have sp: "length sampled = min 3 (length ?other)" "mset sampled \<subseteq># mset ?other"
    using sample_ok [of "min 3 (length ?other)" ?other "sample_draws rnd"] s(2) by auto
  have mem: "en_word w \<in> set (map fst ?rows)" using row by force
  have len_other: "length ?other = length ?rows - 1"
    using length_filter_other [OF assms(3) mem] by simp
  have d_other: "distinct ?other" using assms(3) by simp
  have ds: "distinct sampled" "set sampled \<subseteq> set ?other"
    using distinct_of_submultiset [OF sp(2) d_other] by simp_all
  have perm: "mset (options c) = mset (en_word w # sampled)" using s(3) by simp
  have "distinct (en_word w # sampled)" using ds by auto
  then have d: "distinct (options c)" using perm by (metis mset_eq_imp_distinct_iff)
  have "length (options c) = length (en_word w # sampled)"
    using perm by (rule mset_eq_length)
  then have l: "length (options c) = min 4 (length ?rows)"
    using sp(1) len_other assms(2) by (cases ?rows) auto
  have "en_word c \<in> set (options c)"
    using perm s(1) by (metis list.set_intros(1) mset_eq_setD)
  then show ?thesis using wc(1) d l by blast
qed

section \<open>Properties of strip and lower\<close>








section \<open>The schema constraints are kept\<close>

text \<open>
  The state with the shared word arises from \<^verbatim>\<open>add_user_word\<close>, which checks
  the new word against the user's own words only; and the two methods that
  write keep the constraints of the schema.
\<close>

lemma shared_word_db_reachable:
  "add_user_word (shared_word_db\<lparr>user_words := [], user_words_id_seq := 0\<rparr>) 7
       (str ''Apple'') (str ''Yablochko'') = Inr (True, shared_word_db)
   \<and> schema_ok shared_word_db"
  by (simp add: add_user_word_def insert_user_word_def execute_def shared_word_db_def
      schema_ok_def str_def lower_def char_lower_def)

lemma insert_user_word_schema:
  assumes "schema_ok db" and "insert_user_word db user_id en ru = Inr (result, db')"
  shows "schema_ok db'"
proof (cases "list_ex (\<lambda>(i, u, en', ru'). u = user_id \<and> en' = en) (user_words db)")
  case True
  then have "db' = db\<lparr>user_words_id_seq := user_words_id_seq db + 1\<rparr>"
    using assms(2) by (auto simp: insert_user_word_def Let_def split: if_splits)
  then show ?thesis using assms(1) by (auto simp: schema_ok_def list_all_iff)
next
  case False
  then have db': "db' = db\<lparr>user_words_id_seq := user_words_id_seq db + 1,
       user_words := user_words db @ [(user_words_id_seq db + 1, user_id, en, ru)]\<rparr>"
    using assms(2) by (auto simp: insert_user_word_def Let_def split: if_splits)
  have fresh_id: "user_words_id_seq db + 1 \<notin> fst ` set (user_words db)"
    using assms(1) by (fastforce simp: schema_ok_def list_all_iff)
  have fresh_key: "(user_id, en) \<notin> (\<lambda>(i, u, en, ru). (u, en)) ` set (user_words db)"
    using False by (auto simp: list_ex_iff)
  show ?thesis using assms(1) fresh_id fresh_key unfolding db'
    by (auto simp: schema_ok_def list_all_iff)
qed

lemma add_user_word_schema:
  assumes "schema_ok db" and "add_user_word db user_id en ru = Inr (b, db')"
  shows "schema_ok db'"
proof (cases "conn db")
  case None
  then show ?thesis using assms by (simp add: add_user_word_def)
next
  case (Some c)
  show ?thesis
  proof (cases "case execute c () of Inl e \<Rightarrow> Inl e
                 | Inr _ \<Rightarrow> insert_user_word db user_id (lower en) (lower ru)")
    case (Inl e)
    then show ?thesis using assms Some
      by (auto simp: add_user_word_def split: sum.splits)
  next
    case (Inr res)
    obtain result db1 where res: "res = (result, db1)" by (cases res)
    then have "insert_user_word db user_id (lower en) (lower ru) = Inr (result, db1)"
      using Inr by (auto split: sum.splits)
    then have "schema_ok db1" using assms(1) by (rule insert_user_word_schema [rotated])
    moreover have "db' = db1" using assms(2) Some Inr res by (simp add: add_user_word_def)
    ultimately show ?thesis by simp
  qed
qed

lemma record_answer_schema:
  assumes "schema_ok db" and "record_answer db user_id wt rid correct now_utc = Inr (b, db')"
  shows "schema_ok db'"
  using assms
  by (auto simp: record_answer_def schema_ok_def split: option.splits sum.splits)

section \<open>Claims\<close>

text \<open>
  C1. For every candidate whose progress counts are non-negative (a missing
  progress row counting as 0 and 0), the weight computed by the loop is 10 when
  both counts are 0, \<open>max 1 (5 + 2 * incorrect - correct)\<close> when there is at
  least one mistake, and \<open>max 1 (5 - correct)\<close> when there are only correct
  answers.
\<close>

theorem final_weight_tiers:
  assumes "0 \<le> count_of correct_c" and "0 \<le> count_of incorrect_c"
  shows "final_weight correct_c incorrect_c =
     (if count_of correct_c = 0 \<and> count_of incorrect_c = 0 then 10
      else if count_of incorrect_c > 0
        then max 1 (5 + 2 * count_of incorrect_c - count_of correct_c)
      else max 1 (5 - count_of correct_c))"
  using assms
  by (cases correct_c; cases incorrect_c) (auto simp: final_weight_def count_of_def Let_def)

theorem final_weight_tiers_witness:
  "final_weight None None = 10
   \<and> final_weight (Some 1) (Some 2) = 8
   \<and> final_weight (Some 3) (Some 0) = 2
   \<and> final_weight (Some 40) (Some 1) = 1
   \<and> final_weight (Some 9) None = 1"
  using final_weight_tiers [of None None]
        final_weight_tiers [of "Some 1" "Some 2"]
        final_weight_tiers [of "Some 3" "Some 0"]
        final_weight_tiers [of "Some 40" "Some 1"]
        final_weight_tiers [of "Some 9" None]
  by (simp add: count_of_def)

text \<open>
  C2, at an input on which the code departs from it. User 7 has added
  \<^verbatim>\<open>apple\<close>, a common word too, so the candidate set holds three rows of which
  two carry the English text \<^verbatim>\<open>apple\<close>. When \<^verbatim>\<open>book\<close> is selected, both
  \<^verbatim>\<open>apple\<close> rows are sampled and the options repeat a string; when an
  \<^verbatim>\<open>apple\<close> row is selected, the filter on the text removes both, and two
  options are left for a vocabulary of three.
\<close>

theorem options_repeat_a_shared_word:
  "get_random_card shared_word_db 7 example_rnd =
     Inr (Some \<lparr>en_word = str ''book'', ru_word = str ''kniga'', word_type = Common,
                 word_ref_id = 2,
                 options = [str ''book'', str ''apple'', str ''apple'']\<rparr>)
   \<and> get_random_card shared_word_db 7 (example_rnd\<lparr>random_value := 0\<rparr>) =
     Inr (Some \<lparr>en_word = str ''apple'', ru_word = str ''yabloko'', word_type = Common,
                 word_ref_id = 1,
                 options = [str ''apple'', str ''book'']\<rparr>)
   \<and> length (words_data_with_progress shared_word_db 7) = 3"
  by code_simp



text \<open>
  C4. Under the constraints of the schema, for every user with a non-empty
  candidate set (and a usable connection), no two candidates share their
  \<^verbatim>\<open>(word_type, word_ref_id)\<close>, and \<^verbatim>\<open>get_random_card\<close> returns a card whose
  \<^verbatim>\<open>(word_type, word_ref_id)\<close> is that of exactly one candidate.
\<close>

theorem card_matches_one_candidate:
  assumes "schema_ok db" and "conn db = Some Healthy"
    and "words_data_with_progress db user_id \<noteq> []"
  shows "distinct (map row_identity (words_data_with_progress db user_id))
     \<and> (\<exists>c. get_random_card db user_id rnd = Inr (Some c)
           \<and> length (filter (\<lambda>row. row_identity row = card_identity c)
                        (words_data_with_progress db user_id)) = 1)"
proof -
  let ?rows = "words_data_with_progress db user_id"
  have d: "distinct (map row_identity ?rows)"
    using assms(1) by (rule candidate_identities_distinct)
  obtain w c where wc: "get_random_card db user_id rnd = Inr (Some c)"
      "w \<in> set (fst (weights_loop ?rows [] []))" "make_card ?rows w rnd = Inr c"
    using get_random_card_ok [OF assms(2,3)] by blast
  obtain row where row: "row \<in> set ?rows" "row_identity row = (word_type w, word_ref_id w)"
    using population_of_rows [OF wc(2)] by blast
  have "card_identity c = (word_type w, word_ref_id w)"
    using make_card_ok [of ?rows w rnd] wc(3) by (auto simp: card_identity_def)
  then have "length (filter (\<lambda>r. row_identity r = card_identity c) ?rows) = 1"
    using filter_same_key_length [OF d row(1)] row(2) by simp
  then show ?thesis using d wc(1) by blast
qed

theorem card_matches_one_candidate_witness:
  "schema_ok example_db \<and> conn example_db = Some Healthy
   \<and> words_data_with_progress example_db 7 \<noteq> []
   \<and> distinct (map row_identity (words_data_with_progress example_db 7))
   \<and> (\<exists>c. get_random_card example_db 7 example_rnd = Inr (Some c)
         \<and> length (filter (\<lambda>row. row_identity row = card_identity c)
                      (words_data_with_progress example_db 7)) = 1)"
proof -
  have h1: "schema_ok example_db" by (simp add: schema_ok_def example_db_def str_def)
  have h2: "conn example_db = Some Healthy" by (simp add: example_db_def)
  have h3: "words_data_with_progress example_db 7 \<noteq> []"
    by (simp add: words_data_with_progress_def words_union_def example_db_def)
  show ?thesis using h1 h2 h3 card_matches_one_candidate [OF h1 h2 h3, of example_rnd] by simp
qed

text \<open>
  C5 as the specification states it: when there is no connection, or a storage
  operation raises, the selector lets the failure propagate to its caller. The
  code does not: without a connection and with a closed one
  \<^verbatim>\<open>get_random_card\<close> returns \<^verbatim>\<open>None\<close>, and no exception leaves it.
\<close>

theorem store_failure_is_not_propagated:
  "get_random_card no_connection_db 7 example_rnd = Inr None
   \<and> get_random_card closed_connection_db 7 example_rnd = Inr None"
  by (simp add: get_random_card_def get_random_card_try_def execute_def
      no_connection_db_def closed_connection_db_def)

text \<open>
  C5, amended. For every invocation during which there is no connection or the
  storage operation raises, \<^verbatim>\<open>get_random_card\<close> handles the failure itself
  and returns \<^verbatim>\<open>None\<close>, the value it also returns for an empty vocabulary;
  nothing is raised to the caller.
\<close>

theorem store_failure_returns_None:
  assumes "conn db = None \<or> conn db = Some Closed"
  shows "get_random_card db user_id rnd = Inr None"
  using assms
  by (auto simp: get_random_card_def get_random_card_try_def execute_def)

theorem store_failure_returns_None_witness:
  "conn no_connection_db = None \<and> get_random_card no_connection_db 7 example_rnd = Inr None
   \<and> conn closed_connection_db = Some Closed
   \<and> get_random_card closed_connection_db 7 example_rnd = Inr None"
  using store_failure_returns_None [of no_connection_db 7 example_rnd]
        store_failure_returns_None [of closed_connection_db 7 example_rnd]
  by (simp add: no_connection_db_def closed_connection_db_def)



text \<open>
  C7. For every user whose candidate set is empty, \<^verbatim>\<open>get_random_card\<close> returns
  \<^verbatim>\<open>None\<close> and raises nothing.
\<close>

theorem empty_vocabulary_returns_None:
  assumes "words_data_with_progress db user_id = []"
  shows "get_random_card db user_id rnd = Inr None"
  using assms
  by (simp add: get_random_card_def get_random_card_try_def execute_def
      split: option.splits connection.splits sum.splits)

theorem empty_vocabulary_returns_None_witness:
  "words_data_with_progress empty_db 7 = [] \<and> get_random_card empty_db 7 example_rnd = Inr None"
proof -
  have h: "words_data_with_progress empty_db 7 = []"
    by (simp add: words_data_with_progress_def words_union_def empty_db_def)
  show ?thesis using h empty_vocabulary_returns_None [OF h, of example_rnd] by simp
qed



text \<open>
  C9. For every key, on a usable connection and with both counters below the
  maximum of the \<^verbatim>\<open>INT\<close> column (counting a missing row as 0 and 0),
  \<^verbatim>\<open>record_answer\<close> returns \<^verbatim>\<open>True\<close>; afterwards the row of the key exists, the
  counter that matches \<^verbatim>\<open>is_correct\<close> is one higher, the other counter is
  unchanged (zero for a new row), \<^verbatim>\<open>last_tested\<close> is the time of the call, and
  the rows of all other keys are as before. Hence a second call for a correct
  answer leaves \<^verbatim>\<open>correct_count\<close> two higher, \<^verbatim>\<open>incorrect_count\<close> unchanged and
  \<^verbatim>\<open>last_tested\<close> at the time of the later call.
\<close>

theorem record_answer_upsert:
  assumes "conn db = Some Healthy"
    and "progress_counts db (user_id, wt, rid) = (c, i)"
    and "c < int4_max" and "i < int4_max"
  shows "\<exists>db'. record_answer db user_id wt rid correct now_utc = Inr (True, db')
     \<and> user_word_progress db' (user_id, wt, rid)
          = Some (if correct then (c + 1, i, Some now_utc) else (c, i + 1, Some now_utc))
     \<and> (\<forall>k. k \<noteq> (user_id, wt, rid) \<longrightarrow> user_word_progress db' k = user_word_progress db k)
     \<and> (correct \<and> c + 1 < int4_max \<longrightarrow>
          (\<exists>db''. record_answer db' user_id wt rid True later = Inr (True, db'')
             \<and> user_word_progress db'' (user_id, wt, rid) = Some (c + 2, i, Some later)))"
proof (cases "user_word_progress db (user_id, wt, rid)")
  case None
  then have ci: "c = 0" "i = 0" using assms(2) by (simp_all add: progress_counts_def)
  show ?thesis using None ci assms(1)
    by (simp add: record_answer_def execute_def upsert_progress_def int4_max_def)
next
  case (Some row)
  obtain c' i' t where row: "row = (c', i', t)" by (cases row)
  then have ci: "c' = c" "i' = i" using assms(2) Some by (simp_all add: progress_counts_def)
  show ?thesis using Some row ci assms(1,3,4)
    by (simp add: record_answer_def execute_def upsert_progress_def)
qed

theorem record_answer_upsert_witness:
  "conn example_db = Some Healthy
   \<and> progress_counts example_db (7, Common, 3) = (3, 0)
   \<and> progress_counts example_db (7, Common, 1) = (0, 0)
   \<and> (\<exists>db'. record_answer example_db 7 Common 3 True 60 = Inr (True, db')
         \<and> user_word_progress db' (7, Common, 3) = Some (4, 0, Some 60)
         \<and> (\<exists>db''. record_answer db' 7 Common 3 True 61 = Inr (True, db'')
               \<and> user_word_progress db'' (7, Common, 3) = Some (5, 0, Some 61)))
   \<and> (\<exists>db'. record_answer example_db 7 Common 1 False 60 = Inr (True, db')
         \<and> user_word_progress db' (7, Common, 1) = Some (0, 1, Some 60))"
proof -
  have h1: "conn example_db = Some Healthy" by (simp add: example_db_def)
  have h2: "progress_counts example_db (7, Common, 3) = (3, 0)"
    by (simp add: progress_counts_def example_db_def)
  have h3: "progress_counts example_db (7, Common, 1) = (0, 0)"
    by (simp add: progress_counts_def example_db_def)
  have b: "(3::int) < int4_max" "(0::int) < int4_max" "(3::int) + 1 < int4_max"
    by (simp_all add: int4_max_def)
  have first: "\<exists>db'. record_answer example_db 7 Common 3 True 60 = Inr (True, db')
         \<and> user_word_progress db' (7, Common, 3) = Some (4, 0, Some 60)
         \<and> (\<exists>db''. record_answer db' 7 Common 3 True 61 = Inr (True, db'')
               \<and> user_word_progress db'' (7, Common, 3) = Some (5, 0, Some 61))"
    using record_answer_upsert [OF h1 h2 b(1) b(2), of True 60 61] b(3) by fastforce
  have second: "\<exists>db'. record_answer example_db 7 Common 1 False 60 = Inr (True, db')
         \<and> user_word_progress db' (7, Common, 1) = Some (0, 1, Some 60)"
    using record_answer_upsert [OF h1 h3 b(2) b(2), of False 60 61] by fastforce
  show ?thesis using h1 h2 h3 first second by blast
qed



end
